theory Spec2Isabelle
  imports
    Main
    "HOL-Library.Sublist"
    "HOL-Library.AList"
    "HOL-Library.Char_ord"
    "HOL-Library.List_Lexorder"
    "HOL-Library.Product_Lexorder"
begin

section \<open>Data model\<close>

text \<open>
  A migration is identified by the pair (app label, migration name); the loader, the
  graph and the recorder all use that tuple as a dictionary key.
\<close>

type_synonym key = "string \<times> string"

text \<open>
  The callables of a RunPython operation: only the docstring is read by the command
  (\<^verbatim>\<open>code.__doc__\<close>). The SQL of a RunSQL operation is a string or a list
  of statements.
\<close>

record callable =
  doc :: "string option"

datatype sql_value = SqlText string | SqlStatements "string list"

text \<open>
  \<^verbatim>\<open>describe_operation\<close> distinguishes operations by attribute: one with a
  \<^verbatim>\<open>code\<close> attribute (RunPython), one with a \<^verbatim>\<open>sql\<close> attribute
  (RunSQL), and every other one. The first component is the text of
  \<^verbatim>\<open>operation.describe()\<close>.
\<close>

datatype operation =
    RunPython string "callable option" "callable option"
  | RunSQL string "sql_value option" "sql_value option"
  | OtherOperation string

record migration =
  name :: string
  app_label :: string
  dependencies :: "key list"
  run_before :: "key list"
  replaces :: "key list"
  operations :: "operation list"

text \<open>The exceptions raised by the loader, the recorder and the migrate command.\<close>

datatype error =
    AmbiguityError string
  | KeyError string
  | IndexError
  | ValueError string
  | BadMigrationError string
  | ImportError string
  | ModuleNotFoundError string
  | NodeNotFoundError string key "migration option"
  | InconsistentMigrationHistory string
  | CommandError string
  | DatabaseError string
  | MigrationSchemaMissing string
  | CircularDependencyError string
  | DuplicateNode key

definition quoted :: "string \<Rightarrow> string" where
  "quoted s = CHR 0x27 # s @ [CHR 0x27]"


section \<open>The recorder\<close>

text \<open>
  A row of the table \<^verbatim>\<open>django_migrations\<close>: the fields app, name and applied
  of the model class MigrationRecorder.Migration (the timestamp as a number).
\<close>

datatype migration_row = MigrationRow (row_app: string) (row_name: string) (row_applied: nat)

text \<open>
  The database behind a connection, as far as the recorder uses it: the table names the
  introspection reports, the rows of \<^verbatim>\<open>django_migrations\<close>, and the error, if
  any, with which the schema editor refuses to create a table. A query on a table that
  does not exist raises DatabaseError, which is what \<^verbatim>\<open>applied_migrations\<close> and
  \<^verbatim>\<open>ensure_schema\<close> guard against.
\<close>

record connection =
  db_alias :: string
  table_names :: "string list"
  migration_rows :: "migration_row list"
  create_error :: "string option"

definition db_table :: string where
  "db_table = ''django_migrations''"

definition has_table :: "connection \<Rightarrow> bool" where
  "has_table c = (db_table \<in> set (table_names c))"

text \<open>\<^verbatim>\<open>editor.create_model(self.Migration)\<close> inside the schema editor.\<close>

definition create_model :: "connection \<Rightarrow> error + connection" where
  "create_model c =
     (case create_error c of
        Some exc \<Rightarrow> Inl (DatabaseError exc)
      | None \<Rightarrow> Inr (c\<lparr>table_names := table_names c @ [db_table], migration_rows := []\<rparr>))"

definition ensure_schema :: "connection \<Rightarrow> error + connection" where
  "ensure_schema c =
     (if has_table c then Inr c
      else (case create_model c of
              Inl (DatabaseError exc) \<Rightarrow>
                Inl (MigrationSchemaMissing
                       (''Unable to create the django_migrations table ('' @ exc @ '')''))
            | Inl e \<Rightarrow> Inl e
            | Inr c' \<Rightarrow> Inr c'))"

text \<open>Evaluating the queryset \<^verbatim>\<open>migration_qs\<close>: the rows, or the database's error.\<close>

definition migration_qs :: "connection \<Rightarrow> error + migration_row list" where
  "migration_qs c =
     (if has_table c then Inr (migration_rows c)
      else Inl (DatabaseError (''no such table: '' @ db_table)))"

datatype applied_value = AppliedRow migration_row | AppliedUnit migration

text \<open>
  The dictionary comprehension of \<^verbatim>\<open>applied_migrations\<close>, as an association
  list in insertion order: a later row with the same (app, name) replaces the value of
  the earlier one and keeps its place.
\<close>

type_synonym applied_dict = "(key \<times> applied_value) list"

definition rows_dict :: "migration_row list \<Rightarrow> applied_dict" where
  "rows_dict rows =
     fold (\<lambda>r d. AList.update (row_app r, row_name r) (AppliedRow r) d) rows []"

text \<open>
  \<^verbatim>\<open>MigrationRecorder.applied_migrations\<close> (the loader has an attribute of the
  same name, hence the prefix).
\<close>

definition recorder_applied_migrations :: "connection \<Rightarrow> error + applied_dict" where
  "recorder_applied_migrations c =
     (if has_table c then
        (case migration_qs c of Inl e \<Rightarrow> Inl e | Inr rows \<Rightarrow> Inr (rows_dict rows))
      else Inr [])"

definition record_applied :: "connection \<Rightarrow> string \<Rightarrow> string \<Rightarrow> nat \<Rightarrow> error + connection" where
  "record_applied c app nm now =
     (case ensure_schema c of
        Inl e \<Rightarrow> Inl e
      | Inr c' \<Rightarrow>
          (case migration_qs c' of
             Inl e \<Rightarrow> Inl e
           | Inr rows \<Rightarrow> Inr (c'\<lparr>migration_rows := rows @ [MigrationRow app nm now]\<rparr>)))"

definition record_unapplied :: "connection \<Rightarrow> string \<Rightarrow> string \<Rightarrow> error + connection" where
  "record_unapplied c app nm =
     (case ensure_schema c of
        Inl e \<Rightarrow> Inl e
      | Inr c' \<Rightarrow>
          (case migration_qs c' of
             Inl e \<Rightarrow> Inl e
           | Inr rows \<Rightarrow>
               Inr (c'\<lparr>migration_rows :=
                        filter (\<lambda>r. \<not> (row_app r = app \<and> row_name r = nm)) rows\<rparr>)))"

definition flush :: "connection \<Rightarrow> error + connection" where
  "flush c =
     (case migration_qs c of
        Inl e \<Rightarrow> Inl e
      | Inr rows \<Rightarrow> Inr (c\<lparr>migration_rows := []\<rparr>))"

section \<open>The migration graph\<close>

text \<open>
  Modelled from the spec: the class MigrationGraph (django/db/migrations/graph.py), which
  the loader imports and whose source is not among the files. The spec's data model: a
  graph maps a key to a node holding the keys of its parents and of its children; a node
  created by an edge before any unit was bound to it is a placeholder (Unresolved, with
  the unit that referred to it), every other node is Resolved with its unit. The
  dictionary is an association list in insertion order with distinct keys; the two sets
  of a node are lists without repetition.
\<close>

datatype node_payload = Unresolved migration | Resolved migration

record graph_node =
  payload :: node_payload
  parents :: "key list"
  children :: "key list"

type_synonym graph = "(key \<times> graph_node) list"

definition graph_keys :: "graph \<Rightarrow> key list" where
  "graph_keys g = map fst g"

text \<open>\<^verbatim>\<open>key in self.graph\<close> and \<^verbatim>\<open>key in self.graph.nodes\<close>.\<close>

definition in_graph :: "key \<Rightarrow> graph \<Rightarrow> bool" where
  "in_graph k g = (k \<in> set (graph_keys g))"

definition node_of :: "graph \<Rightarrow> key \<Rightarrow> graph_node option" where
  "node_of g k = map_of g k"

definition parents_of :: "graph \<Rightarrow> key \<Rightarrow> key list" where
  "parents_of g k = (case node_of g k of None \<Rightarrow> [] | Some n \<Rightarrow> parents n)"

definition children_of :: "graph \<Rightarrow> key \<Rightarrow> key list" where
  "children_of g k = (case node_of g k of None \<Rightarrow> [] | Some n \<Rightarrow> children n)"

definition update_node :: "key \<Rightarrow> (graph_node \<Rightarrow> graph_node) \<Rightarrow> graph \<Rightarrow> graph" where
  "update_node k f g = map (\<lambda>(k', n). if k' = k then (k', f n) else (k', n)) g"

definition new_node :: "node_payload \<Rightarrow> graph_node" where
  "new_node p = \<lparr>payload = p, parents = [], children = []\<rparr>"

text \<open>
  \<^verbatim>\<open>add_node(key, payload)\<close>: a new key gets a resolved node; a placeholder under the
  key is given the payload and keeps its edges; adding the unit a key already has changes
  nothing, and a different unit for it is the error DuplicateNode.
\<close>

definition add_node :: "graph \<Rightarrow> key \<Rightarrow> migration \<Rightarrow> error + graph" where
  "add_node g k m =
     (case node_of g k of
        None \<Rightarrow> Inr (g @ [(k, new_node (Resolved m))])
      | Some n \<Rightarrow>
          (case payload n of
             Unresolved origin \<Rightarrow> Inr (update_node k (\<lambda>n. n\<lparr>payload := Resolved m\<rparr>) g)
           | Resolved m' \<Rightarrow> if m' = m then Inr g else Inl (DuplicateNode k)))"

text \<open>The placeholder a dependency creates for an endpoint that is not a node yet.\<close>

definition add_dummy_node :: "graph \<Rightarrow> key \<Rightarrow> migration \<Rightarrow> graph" where
  "add_dummy_node g k origin =
     (if in_graph k g then g else g @ [(k, new_node (Unresolved origin))])"

text \<open>
  \<^verbatim>\<open>add_dependency(migration, child, parent, skip_validation=True)\<close>: the edge from
  parent to child, with a placeholder for either endpoint that is missing.
\<close>

definition add_dependency :: "graph \<Rightarrow> migration \<Rightarrow> key \<Rightarrow> key \<Rightarrow> graph" where
  "add_dependency g origin child parent =
     (let g1 = add_dummy_node g child origin;
          g2 = add_dummy_node g1 parent origin;
          g3 = update_node child (\<lambda>n. n\<lparr>parents := List.insert parent (parents n)\<rparr>) g2
      in update_node parent (\<lambda>n. n\<lparr>children := List.insert child (children n)\<rparr>) g3)"

text \<open>
  Moving the end of an edge: every key of \<open>olds\<close> in a list of neighbours becomes
  \<open>new\<close>; a node is never its own neighbour (the graph has no self-loop).
\<close>

definition retarget :: "key list \<Rightarrow> key \<Rightarrow> key \<Rightarrow> key list \<Rightarrow> key list" where
  "retarget olds new self ks =
     remdups (filter (\<lambda>k. k \<noteq> self) (map (\<lambda>k. if k \<in> set olds then new else k) ks))"

definition delete_nodes :: "key list \<Rightarrow> graph \<Rightarrow> graph" where
  "delete_nodes ks g = filter (\<lambda>(k, n). k \<notin> set ks) g"

text \<open>
  \<^verbatim>\<open>remove_replaced_nodes(replacement, replaced)\<close>: the replaced nodes are deleted,
  and every edge that touched one of them touches the replacement instead, in the same
  direction.
\<close>

definition remove_replaced_nodes :: "graph \<Rightarrow> key \<Rightarrow> key list \<Rightarrow> graph" where
  "remove_replaced_nodes g replacement replaced =
     (let inherited_parents = concat (map (parents_of g) replaced);
          inherited_children = concat (map (children_of g) replaced)
      in map (\<lambda>(k, n).
                if k = replacement then
                  (k, n\<lparr>parents := retarget replaced replacement k (parents n @ inherited_parents),
                        children := retarget replaced replacement k (children n @ inherited_children)\<rparr>)
                else
                  (k, n\<lparr>parents := retarget replaced replacement k (parents n),
                        children := retarget replaced replacement k (children n)\<rparr>))
             (delete_nodes replaced g))"

text \<open>
  \<^verbatim>\<open>remove_replacement_node(replacement, replaced)\<close>: the replacement node is
  deleted, and its edges are moved onto the last of the replaced keys.
\<close>

definition remove_replacement_node :: "graph \<Rightarrow> key \<Rightarrow> key list \<Rightarrow> graph" where
  "remove_replacement_node g replacement replaced =
     (case replaced of
        [] \<Rightarrow> map (\<lambda>(k, n). (k, n\<lparr>parents := removeAll replacement (parents n),
                                  children := removeAll replacement (children n)\<rparr>))
                (delete_nodes [replacement] g)
      | _ \<Rightarrow>
        (let tail_key = last replaced;
             inherited_parents = parents_of g replacement;
             inherited_children = children_of g replacement
         in map (\<lambda>(k, n).
                if k = tail_key then
                  (k, n\<lparr>parents := retarget [replacement] tail_key k (parents n @ inherited_parents),
                        children := retarget [replacement] tail_key k (children n @ inherited_children)\<rparr>)
                else
                  (k, n\<lparr>parents := retarget [replacement] tail_key k (parents n),
                        children := retarget [replacement] tail_key k (children n)\<rparr>))
             (delete_nodes [replacement] g)))"

text \<open>
  \<^verbatim>\<open>validate_consistency()\<close>: the error NodeNotFound for the first node that is
  still a placeholder, with the key and the unit that referred to it.
\<close>

fun validate_consistency :: "graph \<Rightarrow> error option" where
  "validate_consistency [] = None"
| "validate_consistency ((k, n) # g) =
     (case payload n of
        Unresolved origin \<Rightarrow>
          Some (NodeNotFoundError ''Migration dependencies reference nonexistent node'' k (Some origin))
      | Resolved m \<Rightarrow> validate_consistency g)"

text \<open>
  \<^verbatim>\<open>root_nodes(app_label=None)\<close> and \<^verbatim>\<open>leaf_nodes(app_label=None)\<close>: the
  nodes with no parents, and those with no children, of the app if one is given, sorted
  by key.
\<close>

definition of_app :: "string option \<Rightarrow> key \<Rightarrow> bool" where
  "of_app app k = (case app of None \<Rightarrow> True | Some a \<Rightarrow> fst k = a)"

definition root_nodes :: "graph \<Rightarrow> string option \<Rightarrow> key list" where
  "root_nodes g app = sort (map fst (filter (\<lambda>(k, n). parents n = [] \<and> of_app app k) g))"

definition leaf_nodes :: "graph \<Rightarrow> string option \<Rightarrow> key list" where
  "leaf_nodes g app = sort (map fst (filter (\<lambda>(k, n). children n = [] \<and> of_app app k) g))"

section \<open>The loader\<close>

text \<open>
  The attributes of a MigrationLoader after \<^verbatim>\<open>build_graph\<close> has run. The
  dictionaries \<^verbatim>\<open>disk_migrations\<close> and \<^verbatim>\<open>replacements\<close> are
  association lists in insertion order; \<^verbatim>\<open>applied_migrations\<close> is
  an association list too (its values are recorder rows or, for a squash marked applied,
  the unit itself).
\<close>

record loader =
  ignore_no_migrations :: bool
  replace_migrations :: bool
  disk_migrations :: "(key \<times> migration) list"
  unmigrated_apps :: "string set"
  migrated_apps :: "string set"
  applied_migrations :: applied_dict
  graph :: graph
  replacements :: "(key \<times> migration) list"

subsection \<open>load_disk\<close>



















subsection \<open>get_migration_by_prefix\<close>

text \<open>
  The search loop of \<^verbatim>\<open>get_migration_by_prefix\<close>: the keys of
  \<^verbatim>\<open>disk_migrations\<close>, in order, whose app label is the given one and whose name
  starts with the prefix.
\<close>

definition prefix_results :: "loader \<Rightarrow> string \<Rightarrow> string \<Rightarrow> key list" where
  "prefix_results L app name_prefix =
     filter (\<lambda>(migration_app_label, migration_name).
               migration_app_label = app \<and> prefix name_prefix migration_name)
            (map fst (disk_migrations L))"

text \<open>
  The method reads the loader and assigns nothing; the loader is returned beside the
  result so that the absence of any effect is part of the model.
\<close>

definition ambiguity_message :: "string \<Rightarrow> string \<Rightarrow> string" where
  "ambiguity_message app name_prefix =
     ''There is more than one migration for '' @ quoted app
       @ '' with the prefix '' @ quoted name_prefix"

definition no_migration_message :: "string \<Rightarrow> string \<Rightarrow> string" where
  "no_migration_message app name_prefix =
     ''There is no migration for '' @ quoted app
       @ '' with the prefix '' @ quoted name_prefix"

definition get_migration_by_prefix ::
  "loader \<Rightarrow> string \<Rightarrow> string \<Rightarrow> (error + migration) \<times> loader" where
  "get_migration_by_prefix L app name_prefix =
     (let results = prefix_results L app name_prefix in
      if length results > 1 then
        (Inl (AmbiguityError (ambiguity_message app name_prefix)), L)
      else if results = [] then
        (Inl (KeyError (no_migration_message app name_prefix)), L)
      else
        (case map_of (disk_migrations L) (hd results) of
           None \<Rightarrow> (Inl (KeyError ''disk_migrations''), L)
         | Some m \<Rightarrow> (Inr m, L)))"

text \<open>The keys a prefix lookup is about: those of the app whose name starts with the prefix.\<close>

definition prefix_matches :: "loader \<Rightarrow> string \<Rightarrow> string \<Rightarrow> key set" where
  "prefix_matches L app p =
     {k \<in> fst ` set (disk_migrations L). fst k = app \<and> prefix p (snd k)}"

subsection \<open>check_consistent_history\<close>

definition dict_keys :: "('k \<times> 'v) list \<Rightarrow> 'k list" where
  "dict_keys d = map fst d"

definition history_message :: "key \<Rightarrow> key \<Rightarrow> string \<Rightarrow> string" where
  "history_message m p db =
     ''Migration '' @ fst m @ ''.'' @ snd m @ '' is applied before its dependency ''
       @ fst p @ ''.'' @ snd p @ '' on database '' @ quoted db @ ''.''"

text \<open>
  The test on an unapplied parent: it is passed over when it is a replacing unit all of
  whose \<^verbatim>\<open>replaces\<close> are applied.
\<close>

definition replaces_all_applied :: "loader \<Rightarrow> applied_dict \<Rightarrow> key \<Rightarrow> bool" where
  "replaces_all_applied L applied p =
     (case map_of (replacements L) p of
        None \<Rightarrow> False
      | Some r \<Rightarrow> list_all (\<lambda>m. m \<in> set (dict_keys applied)) (replaces r))"

text \<open>The inner loop, over the parents of one applied unit.\<close>

fun check_parents :: "loader \<Rightarrow> string \<Rightarrow> applied_dict \<Rightarrow> key \<Rightarrow> key list \<Rightarrow> error option" where
  "check_parents L db applied m [] = None"
| "check_parents L db applied m (p # ps) =
     (if p \<notin> set (dict_keys applied) then
        (if replaces_all_applied L applied p then check_parents L db applied m ps
         else Some (InconsistentMigrationHistory (history_message m p db)))
      else check_parents L db applied m ps)"

text \<open>The outer loop, over the applied keys; a key that is not in the graph is skipped.\<close>

fun check_applied :: "loader \<Rightarrow> string \<Rightarrow> applied_dict \<Rightarrow> key list \<Rightarrow> error option" where
  "check_applied L db applied [] = None"
| "check_applied L db applied (m # ms) =
     (if \<not> in_graph m (graph L) then check_applied L db applied ms
      else (case check_parents L db applied m (parents_of (graph L) m) of
              Some e \<Rightarrow> Some e
            | None \<Rightarrow> check_applied L db applied ms))"

text \<open>The result is the exception raised, or None when the method returns.\<close>

definition check_consistent_history :: "loader \<Rightarrow> connection \<Rightarrow> error option" where
  "check_consistent_history L c =
     (case recorder_applied_migrations c of
        Inl e \<Rightarrow> Some e
      | Inr applied \<Rightarrow> check_applied L (db_alias c) applied (dict_keys applied))"

text \<open>
  The applied keys of a database: the (app, name) pairs of the rows of the table, and
  none when there is no table.
\<close>

definition recorded_keys :: "connection \<Rightarrow> key set" where
  "recorded_keys c =
     (if has_table c then (\<lambda>r. (row_app r, row_name r)) ` set (migration_rows c) else {})"

subsection \<open>detect_conflicts\<close>

text \<open>
  The loop of \<^verbatim>\<open>detect_conflicts\<close> over the leaves: \<^verbatim>\<open>seen_apps\<close> maps
  an app label to the names seen for it (a set, here a list without repetition), and an
  app label met again joins \<^verbatim>\<open>conflicting_apps\<close>.
\<close>

definition seen_names :: "(string \<rightharpoonup> string list) \<Rightarrow> string \<Rightarrow> string list" where
  "seen_names seen a = (case seen a of None \<Rightarrow> [] | Some ns \<Rightarrow> ns)"

definition conflict_step ::
  "key \<Rightarrow> (string \<rightharpoonup> string list) \<times> string set \<Rightarrow> (string \<rightharpoonup> string list) \<times> string set" where
  "conflict_step leaf st =
     (case (leaf, st) of ((a, n), (seen_apps, conflicting_apps)) \<Rightarrow>
        (seen_apps(a \<mapsto> List.insert n (seen_names seen_apps a)),
         (if seen_apps a \<noteq> None then insert a conflicting_apps else conflicting_apps)))"

definition conflicts_of :: "key list \<Rightarrow> (string \<rightharpoonup> string list)" where
  "conflicts_of leaves =
     (case fold conflict_step leaves (Map.empty, {}) of
        (seen_apps, conflicting_apps) \<Rightarrow>
          (\<lambda>a. if a \<in> conflicting_apps then Some (sort (seen_names seen_apps a)) else None))"

definition detect_conflicts :: "loader \<Rightarrow> (string \<rightharpoonup> string list)" where
  "detect_conflicts L = conflicts_of (leaf_nodes (graph L) None)"

text \<open>The names a list of keys holds for an app, in order.\<close>

definition names_of :: "key list \<Rightarrow> string \<Rightarrow> string list" where
  "names_of xs a = map snd (filter (\<lambda>k. fst k = a) xs)"

section \<open>The migrate command: describing a plan\<close>

text \<open>
  What the command takes from classes whose source is not among the files, as
  parameters: \<^verbatim>\<open>Truncator(action).chars(40)\<close> as a function of the action (which
  may be None), Python's \<^verbatim>\<open>str\<close> of a list of SQL statements, and
  \<^verbatim>\<open>str(migration)\<close>.
\<close>

record rendering =
  truncator_chars :: "string option \<Rightarrow> string"
  repr_statements :: "string list \<Rightarrow> string"
  migration_str :: "migration \<Rightarrow> string"

fun op_describe :: "operation \<Rightarrow> string" where
  "op_describe (RunPython d c rc) = d"
| "op_describe (RunSQL d s rs) = d"
| "op_describe (OtherOperation d) = d"

fun py_str :: "rendering \<Rightarrow> sql_value \<Rightarrow> string" where
  "py_str R (SqlText s) = s"
| "py_str R (SqlStatements ss) = repr_statements R ss"

text \<open>\<^verbatim>\<open>(code.__doc__ or '')\<close>: a missing or empty docstring gives the empty string.\<close>

definition doc_or_empty :: "callable \<Rightarrow> string" where
  "doc_or_empty c = (case doc c of None \<Rightarrow> [] | Some d \<Rightarrow> d)"

text \<open>
  The first part of \<^verbatim>\<open>describe_operation\<close>: the prefix and the action, which
  is None when the chosen code or SQL is None.
\<close>

fun operation_action :: "rendering \<Rightarrow> operation \<Rightarrow> bool \<Rightarrow> string \<times> string option" where
  "operation_action R (RunPython d c rc) backwards =
     (let code = (if backwards then rc else c) in
      ([], (case code of None \<Rightarrow> None | Some f \<Rightarrow> Some (doc_or_empty f))))"
| "operation_action R (RunSQL d s rs) backwards =
     (let action = (if backwards then rs else s) in
      ([], map_option (py_str R) action))"
| "operation_action R (OtherOperation d) backwards =
     ((if backwards then ''Undo '' else []), Some [])"

definition describe_operation :: "rendering \<Rightarrow> operation \<Rightarrow> bool \<Rightarrow> string \<times> bool" where
  "describe_operation R operation backwards =
     (let (prefix, action0) = operation_action R operation backwards;
          (action1, is_error) =
             (case action0 of
                Some a \<Rightarrow> (Some (filter (\<lambda>ch. ch \<noteq> CHR 0x0A) a), False)
              | None \<Rightarrow> (if backwards then (Some ''IRREVERSIBLE'', True) else (None, False)));
          action2 =
             (case action1 of
                Some a \<Rightarrow> (if a \<noteq> [] then Some ('' -> '' @ a) else Some a)
              | None \<Rightarrow> None)
      in (prefix @ op_describe operation @ truncator_chars R action2, is_error))"

datatype style = MIGRATE_LABEL | MIGRATE_HEADING | WARNING

text \<open>
  The branch \<^verbatim>\<open>if options['plan']\<close> of \<^verbatim>\<open>handle\<close>: the lines written,
  each with its style, and whether the command then leaves through
  \<^verbatim>\<open>sys.exit(1)\<close> (a non-empty plan under \<^verbatim>\<open>--check\<close>).
\<close>

definition operation_line :: "rendering \<Rightarrow> bool \<Rightarrow> operation \<Rightarrow> string \<times> style option" where
  "operation_line R backwards operation =
     (let (message, is_error) = describe_operation R operation backwards;
          style = (if is_error then Some WARNING else None)
      in (''    '' @ message, style))"

definition entry_lines :: "rendering \<Rightarrow> migration \<times> bool \<Rightarrow> (string \<times> style option) list" where
  "entry_lines R entry =
     (case entry of (m, backwards) \<Rightarrow>
        (migration_str R m, Some MIGRATE_HEADING) # map (operation_line R backwards) (operations m))"

definition show_plan ::
  "rendering \<Rightarrow> (migration \<times> bool) list \<Rightarrow> bool \<Rightarrow> (string \<times> style option) list \<times> bool" where
  "show_plan R plan check_unapplied =
     (let exit_dry = (plan \<noteq> [] \<and> check_unapplied) in
      ([(''Planned operations:'', Some MIGRATE_LABEL)]
       @ (if plan = [] then [(''  No planned migration operations.'', None)] else [])
       @ concat (map (entry_lines R) plan),
       exit_dry))"

text \<open>
  An operation "has no reverse effect" in the command's sense when its reverse code, or
  its reverse SQL, is None.
\<close>

fun no_reverse_effect :: "operation \<Rightarrow> bool" where
  "no_reverse_effect (RunPython d c rc) = (rc = None)"
| "no_reverse_effect (RunSQL d s rs) = (rs = None)"
| "no_reverse_effect (OtherOperation d) = False"

section \<open>The migrate command: the targets\<close>









subsection \<open>A small project used to run the definitions\<close>

definition unit_of :: "string \<Rightarrow> string \<Rightarrow> migration" where
  "unit_of a n = \<lparr>name = n, app_label = a, dependencies = [], run_before = [],
     replaces = [], operations = []\<rparr>"

definition books_loader :: loader where
  "books_loader = \<lparr>ignore_no_migrations = False, replace_migrations = True,
     disk_migrations = [((''books'', ''0001_initial''), unit_of ''books'' ''0001_initial''),
                        ((''books'', ''0002_title''), unit_of ''books'' ''0002_title'')],
     unmigrated_apps = {}, migrated_apps = {''books''},
     applied_migrations = [], graph = [], replacements = []\<rparr>"

text \<open>A database with no table yet, and one on which no table can be created.\<close>

definition fresh_connection :: connection where
  "fresh_connection = \<lparr>db_alias = ''default'', table_names = [], migration_rows = [],
     create_error = None\<rparr>"

definition readonly_connection :: connection where
  "readonly_connection = \<lparr>db_alias = ''default'', table_names = [], migration_rows = [],
     create_error = Some ''read-only''\<rparr>"

text \<open>
  A rendering for running the definitions: text of at most 40 characters is left as it
  is, a migration is printed as app label, dot, name.
\<close>

definition plain_rendering :: rendering where
  "plain_rendering = \<lparr>
     truncator_chars = (\<lambda>a. case a of None \<Rightarrow> ''None''
        | Some s \<Rightarrow> if length s \<le> 40 then s else take 39 s @ ''~''),
     repr_statements = concat,
     migration_str = (\<lambda>m. app_label m @ ''.'' @ name m)\<rparr>"

definition irreversible_plan :: "(migration \<times> bool) list" where
  "irreversible_plan =
     [((unit_of ''books'' ''0002_title'')\<lparr>operations :=
         [RunPython ''Raw Python operation'' (Some \<lparr>doc = None\<rparr>) None,
          OtherOperation ''Create model Book'']\<rparr>, True)]"

text \<open>
  A graph with a fork: two units of the app books depend on its first unit, and the app
  auth has a single unit.
\<close>

definition fork_graph :: graph where
  "fork_graph =
     [((''auth'', ''0001_initial''),
         \<lparr>payload = Resolved (unit_of ''auth'' ''0001_initial''), parents = [], children = []\<rparr>),
      ((''books'', ''0001_initial''),
         \<lparr>payload = Resolved (unit_of ''books'' ''0001_initial''), parents = [],
          children = [(''books'', ''0002_title''), (''books'', ''0002_author'')]\<rparr>),
      ((''books'', ''0002_title''),
         \<lparr>payload = Resolved ((unit_of ''books'' ''0002_title'')
                      \<lparr>dependencies := [(''books'', ''0001_initial'')]\<rparr>),
          parents = [(''books'', ''0001_initial'')], children = []\<rparr>),
      ((''books'', ''0002_author''),
         \<lparr>payload = Resolved ((unit_of ''books'' ''0002_author'')
                      \<lparr>dependencies := [(''books'', ''0001_initial'')]\<rparr>),
          parents = [(''books'', ''0001_initial'')], children = []\<rparr>)]"

definition fork_loader :: loader where
  "fork_loader = books_loader\<lparr>graph := fork_graph\<rparr>"

text \<open>
  The app books with two units, the second depending on the first, and databases that
  record only the second unit, both units, or nothing but the two units a squash replaces.
\<close>

definition chain_graph :: graph where
  "chain_graph =
     [((''books'', ''0001_initial''),
         \<lparr>payload = Resolved (unit_of ''books'' ''0001_initial''), parents = [],
          children = [(''books'', ''0002_title'')]\<rparr>),
      ((''books'', ''0002_title''),
         \<lparr>payload = Resolved ((unit_of ''books'' ''0002_title'')
                      \<lparr>dependencies := [(''books'', ''0001_initial'')]\<rparr>),
          parents = [(''books'', ''0001_initial'')], children = []\<rparr>)]"

definition chain_loader :: loader where
  "chain_loader = books_loader\<lparr>graph := chain_graph\<rparr>"

definition database_with :: "migration_row list \<Rightarrow> connection" where
  "database_with rows = \<lparr>db_alias = ''default'', table_names = [db_table],
     migration_rows = rows, create_error = None\<rparr>"

definition squash_unit :: migration where
  "squash_unit = (unit_of ''books'' ''0001_squashed_0002_title'')
     \<lparr>replaces := [(''books'', ''0001_initial''), (''books'', ''0002_title'')]\<rparr>"

text \<open>
  A graph in which the squash has not replaced its two units, and a third unit depends
  on the squash.
\<close>

definition squash_graph :: graph where
  "squash_graph =
     [((''books'', ''0001_squashed_0002_title''),
         \<lparr>payload = Resolved squash_unit, parents = [],
          children = [(''books'', ''0003_author'')]\<rparr>),
      ((''books'', ''0003_author''),
         \<lparr>payload = Resolved ((unit_of ''books'' ''0003_author'')
                      \<lparr>dependencies := [(''books'', ''0001_squashed_0002_title'')]\<rparr>),
          parents = [(''books'', ''0001_squashed_0002_title'')], children = []\<rparr>)]"

definition squash_loader :: loader where
  "squash_loader = books_loader\<lparr>graph := squash_graph,
     replacements := [((''books'', ''0001_squashed_0002_title''), squash_unit)]\<rparr>"





section \<open>Verified properties\<close>

subsection \<open>Prefix lookup\<close>

lemma prefix_results_subset:
  "set (prefix_results L app p) \<subseteq> fst ` set (disk_migrations L)"
  by (auto simp: prefix_results_def)

lemma prefix_results_set:
  "set (prefix_results L app p) =
     {k \<in> fst ` set (disk_migrations L). fst k = app \<and> prefix p (snd k)}"
  by (auto simp: prefix_results_def)

lemma prefix_results_length:
  assumes "distinct (map fst (disk_migrations L))"
  shows "length (prefix_results L app p) =
     card {k \<in> fst ` set (disk_migrations L). fst k = app \<and> prefix p (snd k)}"
proof -
  have "distinct (prefix_results L app p)"
    using assms by (simp add: prefix_results_def)
  then have "length (prefix_results L app p) = card (set (prefix_results L app p))"
    by (simp add: distinct_card)
  then show ?thesis by (simp only: prefix_results_set)
qed

text \<open>
  Claim C7. With the keys of \<^verbatim>\<open>disk_migrations\<close> distinct (it is a dictionary),
  a prefix lookup returns the unit stored under the one matching key when exactly one key
  of the app starts with the prefix, raises AmbiguityError when more than one does, raises
  KeyError when none does, and whenever it fails the loader is what it was.
\<close>

theorem get_migration_by_prefix_spec:
  assumes "distinct (map fst (disk_migrations L))"
  shows "(card (prefix_matches L app p) = 1 \<longrightarrow>
            (\<exists>k m. prefix_matches L app p = {k} \<and> map_of (disk_migrations L) k = Some m
                   \<and> fst (get_migration_by_prefix L app p) = Inr m))
       \<and> (card (prefix_matches L app p) > 1 \<longrightarrow>
            fst (get_migration_by_prefix L app p) =
              Inl (AmbiguityError (ambiguity_message app p)))
       \<and> (prefix_matches L app p = {} \<longrightarrow>
            fst (get_migration_by_prefix L app p) =
              Inl (KeyError (no_migration_message app p)))
       \<and> (\<forall>e. fst (get_migration_by_prefix L app p) = Inl e \<longrightarrow>
             snd (get_migration_by_prefix L app p) = L)"
proof -
  let ?rs = "prefix_results L app p"
  let ?M = "prefix_matches L app p"
  have set_rs: "set ?rs = ?M"
    by (simp add: prefix_results_set prefix_matches_def)
  have len: "length ?rs = card ?M"
    using prefix_results_length [OF assms] by (simp add: prefix_matches_def)
  have one: "card ?M = 1 \<longrightarrow>
            (\<exists>k m. ?M = {k} \<and> map_of (disk_migrations L) k = Some m
                   \<and> fst (get_migration_by_prefix L app p) = Inr m)"
  proof
    assume c: "card ?M = 1"
    with len have l1: "length ?rs = 1" by simp
    then obtain k where rs: "?rs = [k]"
      by (cases ?rs) auto
    with set_rs have M: "?M = {k}" by simp
    have "k \<in> fst ` set (disk_migrations L)"
      using prefix_results_subset [of L app p] rs by auto
    then obtain m where m: "map_of (disk_migrations L) k = Some m"
      by (metis domD dom_map_of_conv_image_fst)
    have "fst (get_migration_by_prefix L app p) = Inr m"
      using rs m by (simp add: get_migration_by_prefix_def)
    with M m show "\<exists>k m. ?M = {k} \<and> map_of (disk_migrations L) k = Some m
                   \<and> fst (get_migration_by_prefix L app p) = Inr m" by blast
  qed
  have many: "card ?M > 1 \<longrightarrow> fst (get_migration_by_prefix L app p) =
              Inl (AmbiguityError (ambiguity_message app p))"
  proof
    assume "card ?M > 1"
    with len have "length ?rs > 1" by simp
    then show "fst (get_migration_by_prefix L app p) =
              Inl (AmbiguityError (ambiguity_message app p))"
      by (simp add: get_migration_by_prefix_def)
  qed
  have none: "?M = {} \<longrightarrow> fst (get_migration_by_prefix L app p) =
              Inl (KeyError (no_migration_message app p))"
  proof
    assume "?M = {}"
    with set_rs have "?rs = []" by simp
    then show "fst (get_migration_by_prefix L app p) =
              Inl (KeyError (no_migration_message app p))"
      by (simp add: get_migration_by_prefix_def)
  qed
  have frame: "\<forall>e. fst (get_migration_by_prefix L app p) = Inl e \<longrightarrow>
             snd (get_migration_by_prefix L app p) = L"
    by (simp add: get_migration_by_prefix_def Let_def split: option.splits)
  from one many none frame show ?thesis by blast
qed

lemma books_matches_0002:
  "prefix_matches books_loader ''books'' ''0002'' = {(''books'', ''0002_title'')}"
  by (auto simp: prefix_matches_def books_loader_def)

lemma books_matches_000:
  "prefix_matches books_loader ''books'' ''000'' =
     {(''books'', ''0001_initial''), (''books'', ''0002_title'')}"
  by (auto simp: prefix_matches_def books_loader_def)

lemma books_matches_9:
  "prefix_matches books_loader ''books'' ''9'' = {}"
  by (auto simp: prefix_matches_def books_loader_def)

theorem get_migration_by_prefix_spec_witness:
  "fst (get_migration_by_prefix books_loader ''books'' ''0002'') =
       Inr (unit_of ''books'' ''0002_title'')
   \<and> fst (get_migration_by_prefix books_loader ''books'' ''000'') =
       Inl (AmbiguityError (ambiguity_message ''books'' ''000''))
   \<and> snd (get_migration_by_prefix books_loader ''books'' ''000'') = books_loader
   \<and> fst (get_migration_by_prefix books_loader ''books'' ''9'') =
       Inl (KeyError (no_migration_message ''books'' ''9''))
   \<and> snd (get_migration_by_prefix books_loader ''books'' ''9'') = books_loader"
proof -
  have d: "distinct (map fst (disk_migrations books_loader))"
    by (simp add: books_loader_def)
  have a: "fst (get_migration_by_prefix books_loader ''books'' ''0002'') =
       Inr (unit_of ''books'' ''0002_title'')"
  proof -
    from get_migration_by_prefix_spec [OF d, of "''books''" "''0002''"]
    obtain m where m: "map_of (disk_migrations books_loader) (''books'', ''0002_title'') = Some m"
      and r: "fst (get_migration_by_prefix books_loader ''books'' ''0002'') = Inr m"
      by (auto simp: books_matches_0002)
    from m have "m = unit_of ''books'' ''0002_title''"
      by (simp add: books_loader_def)
    with r show ?thesis by simp
  qed
  have b: "fst (get_migration_by_prefix books_loader ''books'' ''000'') =
       Inl (AmbiguityError (ambiguity_message ''books'' ''000''))
     \<and> snd (get_migration_by_prefix books_loader ''books'' ''000'') = books_loader"
    using get_migration_by_prefix_spec [OF d, of "''books''" "''000''"]
    by (simp add: books_matches_000)
  have c: "fst (get_migration_by_prefix books_loader ''books'' ''9'') =
       Inl (KeyError (no_migration_message ''books'' ''9''))
     \<and> snd (get_migration_by_prefix books_loader ''books'' ''9'') = books_loader"
    using get_migration_by_prefix_spec [OF d, of "''books''" "''9''"]
    by (simp add: books_matches_9)
  from a b c show ?thesis by blast
qed

subsection \<open>The recorder and a missing table\<close>

lemma ensure_schema_has_table: "ensure_schema c = Inr c' \<Longrightarrow> has_table c'"
  by (auto simp: ensure_schema_def create_model_def has_table_def
           split: if_splits option.splits sum.splits error.splits)

lemma migration_qs_has_table: "has_table c \<Longrightarrow> migration_qs c = Inr (migration_rows c)"
  by (simp add: migration_qs_def)

lemma ensure_schema_existing: "has_table c \<Longrightarrow> ensure_schema c = Inr c"
  by (simp add: ensure_schema_def)

lemma ensure_schema_creates:
  "\<not> has_table c \<Longrightarrow> create_error c = None \<Longrightarrow>
     ensure_schema c = Inr (c\<lparr>table_names := table_names c @ [db_table], migration_rows := []\<rparr>)"
  by (simp add: ensure_schema_def create_model_def)

lemma ensure_schema_fails:
  "\<not> has_table c \<Longrightarrow> create_error c = Some x \<Longrightarrow>
     ensure_schema c = Inl (MigrationSchemaMissing
                              (''Unable to create the django_migrations table ('' @ x @ '')''))"
  by (simp add: ensure_schema_def create_model_def)

lemma record_applied_after_ensure:
  assumes "ensure_schema c = Inr c1"
  shows "record_applied c a n t =
           Inr (c1\<lparr>migration_rows := migration_rows c1 @ [MigrationRow a n t]\<rparr>)"
proof -
  have "has_table c1" using assms by (rule ensure_schema_has_table)
  then have "migration_qs c1 = Inr (migration_rows c1)" by (rule migration_qs_has_table)
  with assms show ?thesis by (simp add: record_applied_def)
qed

lemma record_unapplied_after_ensure:
  assumes "ensure_schema c = Inr c1"
  shows "record_unapplied c a n =
           Inr (c1\<lparr>migration_rows :=
                  filter (\<lambda>r. \<not> (row_app r = a \<and> row_name r = n)) (migration_rows c1)\<rparr>)"
proof -
  have "has_table c1" using assms by (rule ensure_schema_has_table)
  then have "migration_qs c1 = Inr (migration_rows c1)" by (rule migration_qs_has_table)
  with assms show ?thesis by (simp add: record_unapplied_def)
qed

text \<open>
  Claim C10. Without the table \<^verbatim>\<open>django_migrations\<close>, the recorder's
  \<^verbatim>\<open>applied_migrations\<close> returns the empty dictionary and no error.
  \<^verbatim>\<open>ensure_schema\<close> leaves a connection that has the table as it is, creates the
  table (empty) on one that lacks it, and raises MigrationSchemaMissing when the table
  cannot be created. Both \<^verbatim>\<open>record_applied\<close> and
  \<^verbatim>\<open>record_unapplied\<close> run it first: when it fails they fail with its error and
  write nothing; when it returns, the table exists on the connection it returned and the
  write is made on that connection, so on a connection without the table the row is
  written to the table just created.
\<close>

theorem recorder_missing_table:
  "(\<not> has_table c \<longrightarrow> recorder_applied_migrations c = Inr [])
   \<and> (has_table c \<longrightarrow> ensure_schema c = Inr c)
   \<and> (\<not> has_table c \<and> create_error c = None \<longrightarrow>
        ensure_schema c =
          Inr (c\<lparr>table_names := table_names c @ [db_table], migration_rows := []\<rparr>)
        \<and> record_applied c a n t =
          Inr (c\<lparr>table_names := table_names c @ [db_table],
                 migration_rows := [MigrationRow a n t]\<rparr>)
        \<and> record_unapplied c a n =
          Inr (c\<lparr>table_names := table_names c @ [db_table], migration_rows := []\<rparr>))
   \<and> (\<forall>x. \<not> has_table c \<and> create_error c = Some x \<longrightarrow>
        ensure_schema c = Inl (MigrationSchemaMissing
                                 (''Unable to create the django_migrations table ('' @ x @ '')'')))
   \<and> (\<forall>e. ensure_schema c = Inl e \<longrightarrow>
          record_applied c a n t = Inl e \<and> record_unapplied c a n = Inl e)
   \<and> (\<forall>c1. ensure_schema c = Inr c1 \<longrightarrow>
          has_table c1
          \<and> record_applied c a n t =
               Inr (c1\<lparr>migration_rows := migration_rows c1 @ [MigrationRow a n t]\<rparr>)
          \<and> record_unapplied c a n =
               Inr (c1\<lparr>migration_rows :=
                      filter (\<lambda>r. \<not> (row_app r = a \<and> row_name r = n)) (migration_rows c1)\<rparr>))"
proof -
  have p1: "\<not> has_table c \<longrightarrow> recorder_applied_migrations c = Inr []"
    by (simp add: recorder_applied_migrations_def)
  have p2: "has_table c \<longrightarrow> ensure_schema c = Inr c"
    by (simp add: ensure_schema_existing)
  have p3: "\<not> has_table c \<and> create_error c = None \<longrightarrow>
        ensure_schema c =
          Inr (c\<lparr>table_names := table_names c @ [db_table], migration_rows := []\<rparr>)
        \<and> record_applied c a n t =
          Inr (c\<lparr>table_names := table_names c @ [db_table],
                 migration_rows := [MigrationRow a n t]\<rparr>)
        \<and> record_unapplied c a n =
          Inr (c\<lparr>table_names := table_names c @ [db_table], migration_rows := []\<rparr>)"
  proof
    assume h: "\<not> has_table c \<and> create_error c = None"
    then have e: "ensure_schema c =
        Inr (c\<lparr>table_names := table_names c @ [db_table], migration_rows := []\<rparr>)"
      by (simp add: ensure_schema_creates)
    have ra: "record_applied c a n t =
          Inr (c\<lparr>table_names := table_names c @ [db_table],
                 migration_rows := [MigrationRow a n t]\<rparr>)"
      using record_applied_after_ensure [OF e, of a n t] by simp
    have ru: "record_unapplied c a n =
          Inr (c\<lparr>table_names := table_names c @ [db_table], migration_rows := []\<rparr>)"
      using record_unapplied_after_ensure [OF e, of a n] by simp
    from e ra ru show "ensure_schema c =
          Inr (c\<lparr>table_names := table_names c @ [db_table], migration_rows := []\<rparr>)
        \<and> record_applied c a n t =
          Inr (c\<lparr>table_names := table_names c @ [db_table],
                 migration_rows := [MigrationRow a n t]\<rparr>)
        \<and> record_unapplied c a n =
          Inr (c\<lparr>table_names := table_names c @ [db_table], migration_rows := []\<rparr>)"
      by blast
  qed
  have p4: "\<forall>x. \<not> has_table c \<and> create_error c = Some x \<longrightarrow>
        ensure_schema c = Inl (MigrationSchemaMissing
                                 (''Unable to create the django_migrations table ('' @ x @ '')''))"
    by (simp add: ensure_schema_fails)
  have p5: "\<forall>e. ensure_schema c = Inl e \<longrightarrow>
          record_applied c a n t = Inl e \<and> record_unapplied c a n = Inl e"
    by (simp add: record_applied_def record_unapplied_def)
  have p6: "\<forall>c1. ensure_schema c = Inr c1 \<longrightarrow>
          has_table c1
          \<and> record_applied c a n t =
               Inr (c1\<lparr>migration_rows := migration_rows c1 @ [MigrationRow a n t]\<rparr>)
          \<and> record_unapplied c a n =
               Inr (c1\<lparr>migration_rows :=
                      filter (\<lambda>r. \<not> (row_app r = a \<and> row_name r = n)) (migration_rows c1)\<rparr>)"
    using ensure_schema_has_table record_applied_after_ensure record_unapplied_after_ensure
    by blast
  from p1 p2 p3 p4 p5 p6 show ?thesis by blast
qed

theorem recorder_missing_table_witness:
  "\<not> has_table fresh_connection
   \<and> recorder_applied_migrations fresh_connection = Inr []
   \<and> migration_qs fresh_connection = Inl (DatabaseError (''no such table: '' @ db_table))
   \<and> ensure_schema fresh_connection = Inr (fresh_connection\<lparr>table_names := [db_table]\<rparr>)
   \<and> record_applied fresh_connection ''books'' ''0001_initial'' 7 =
       Inr (fresh_connection\<lparr>table_names := [db_table],
              migration_rows := [MigrationRow ''books'' ''0001_initial'' 7]\<rparr>)
   \<and> record_unapplied fresh_connection ''books'' ''0001_initial'' =
       Inr (fresh_connection\<lparr>table_names := [db_table]\<rparr>)
   \<and> record_applied readonly_connection ''books'' ''0001_initial'' 7 =
       Inl (MigrationSchemaMissing
              (''Unable to create the django_migrations table ('' @ ''read-only'' @ '')''))
   \<and> record_applied (fresh_connection\<lparr>table_names := [db_table]\<rparr>) ''books'' ''0002_title'' 9 =
       Inr (fresh_connection\<lparr>table_names := [db_table],
              migration_rows := [MigrationRow ''books'' ''0002_title'' 9]\<rparr>)"
proof -
  let ?a = "''books''" and ?n = "''0001_initial''"
  have nt: "\<not> has_table fresh_connection"
    by (simp add: has_table_def fresh_connection_def)
  have ce: "create_error fresh_connection = None"
    by (simp add: fresh_connection_def)
  have f0: "fresh_connection\<lparr>table_names := table_names fresh_connection @ [db_table],
              migration_rows := []\<rparr> = fresh_connection\<lparr>table_names := [db_table]\<rparr>"
    by (simp add: fresh_connection_def)
  have f1: "fresh_connection\<lparr>table_names := table_names fresh_connection @ [db_table],
              migration_rows := [MigrationRow ?a ?n 7]\<rparr> =
            fresh_connection\<lparr>table_names := [db_table],
              migration_rows := [MigrationRow ?a ?n 7]\<rparr>"
    by (simp add: fresh_connection_def)
  have nr: "\<not> has_table readonly_connection"
    by (simp add: has_table_def readonly_connection_def)
  have cr: "create_error readonly_connection = Some ''read-only''"
    by (simp add: readonly_connection_def)
  have ht: "has_table (fresh_connection\<lparr>table_names := [db_table]\<rparr>)"
    by (simp add: has_table_def)
  from recorder_missing_table [of fresh_connection ?a ?n 7] nt ce
  have a: "recorder_applied_migrations fresh_connection = Inr []"
    and e: "ensure_schema fresh_connection = Inr (fresh_connection\<lparr>table_names := [db_table]\<rparr>)"
    and ra: "record_applied fresh_connection ?a ?n 7 =
       Inr (fresh_connection\<lparr>table_names := [db_table],
              migration_rows := [MigrationRow ?a ?n 7]\<rparr>)"
    and ru: "record_unapplied fresh_connection ?a ?n =
       Inr (fresh_connection\<lparr>table_names := [db_table]\<rparr>)"
    by (simp_all only: f0 f1 simp_thms)
  have b: "migration_qs fresh_connection = Inl (DatabaseError (''no such table: '' @ db_table))"
    using nt by (simp add: migration_qs_def)
  from recorder_missing_table [of readonly_connection ?a ?n 7] nr cr
  have r: "record_applied readonly_connection ?a ?n 7 =
       Inl (MigrationSchemaMissing
              (''Unable to create the django_migrations table ('' @ ''read-only'' @ '')''))"
    by blast
  from recorder_missing_table [of "fresh_connection\<lparr>table_names := [db_table]\<rparr>"
         "''books''" "''0002_title''" 9] ht
  have x: "record_applied (fresh_connection\<lparr>table_names := [db_table]\<rparr>) ''books'' ''0002_title'' 9 =
       Inr (fresh_connection\<lparr>table_names := [db_table],
              migration_rows := migration_rows (fresh_connection\<lparr>table_names := [db_table]\<rparr>)
                 @ [MigrationRow ''books'' ''0002_title'' 9]\<rparr>)"
    by simp
  then have x': "record_applied (fresh_connection\<lparr>table_names := [db_table]\<rparr>) ''books'' ''0002_title'' 9 =
       Inr (fresh_connection\<lparr>table_names := [db_table],
              migration_rows := [MigrationRow ''books'' ''0002_title'' 9]\<rparr>)"
    by (simp add: fresh_connection_def)
  from nt a b e ra ru r x' show ?thesis by blast
qed

subsection \<open>Describing a plan\<close>

lemma describe_operation_flag:
  "snd (describe_operation R operation backwards) = (backwards \<and> no_reverse_effect operation)"
  by (cases operation)
     (auto simp: describe_operation_def Let_def split: option.splits prod.splits)

lemma describe_operation_irreversible_text:
  "backwards \<Longrightarrow> no_reverse_effect operation \<Longrightarrow>
     fst (describe_operation R operation backwards) =
       op_describe operation @ truncator_chars R (Some '' -> IRREVERSIBLE'')"
  by (cases operation) (auto simp: describe_operation_def Let_def)

lemma operation_line_eq:
  "operation_line R backwards operation =
     (''    '' @ fst (describe_operation R operation backwards),
      if backwards \<and> no_reverse_effect operation then Some WARNING else None)"
proof -
  obtain message is_error where d: "describe_operation R operation backwards = (message, is_error)"
    by (cases "describe_operation R operation backwards")
  with describe_operation_flag [of R operation backwards]
  have "is_error = (backwards \<and> no_reverse_effect operation)" by simp
  with d show ?thesis by (simp add: operation_line_def)
qed

lemma operation_line_irreversible:
  "backwards \<Longrightarrow> no_reverse_effect operation \<Longrightarrow>
     operation_line R backwards operation =
       (''    '' @ op_describe operation @ truncator_chars R (Some '' -> IRREVERSIBLE''),
        Some WARNING)"
  by (simp add: operation_line_eq describe_operation_irreversible_text)

lemma entry_lines_eq:
  "entry_lines R (m, b) =
     (migration_str R m, Some MIGRATE_HEADING)
       # map (\<lambda>operation. (''    '' @ fst (describe_operation R operation b),
                 if b \<and> no_reverse_effect operation then Some WARNING else None))
             (operations m)"
  by (simp add: entry_lines_def operation_line_eq)

lemma show_plan_entry:
  "entry \<in> set plan \<Longrightarrow> set (entry_lines R entry) \<subseteq> set (fst (show_plan R plan chk))"
  by (auto simp: show_plan_def)

lemma length_entry_lines: "length (entry_lines R (m, b)) = 1 + length (operations m)"
  by (simp add: entry_lines_def)

lemma length_show_plan:
  "length (fst (show_plan R plan chk)) =
     1 + (if plan = [] then 1 else 0) + (\<Sum>(m, b)\<leftarrow>plan. 1 + length (operations m))"
proof -
  have "length (concat (map (entry_lines R) plan)) = (\<Sum>(m, b)\<leftarrow>plan. 1 + length (operations m))"
    by (induction plan) (auto simp: length_entry_lines)
  then show ?thesis by (simp add: show_plan_def)
qed

lemma show_plan_listing:
  "fst (show_plan R plan chk) =
     [(''Planned operations:'', Some MIGRATE_LABEL)]
     @ (if plan = [] then [(''  No planned migration operations.'', None)] else [])
     @ concat (map (\<lambda>(m, b).
          (migration_str R m, Some MIGRATE_HEADING)
            # map (\<lambda>operation. (''    '' @ fst (describe_operation R operation b),
                      if b \<and> no_reverse_effect operation then Some WARNING else None))
                  (operations m)) plan)"
proof -
  have e: "entry_lines R =
      (\<lambda>(m, b).
          (migration_str R m, Some MIGRATE_HEADING)
            # map (\<lambda>operation. (''    '' @ fst (describe_operation R operation b),
                      if b \<and> no_reverse_effect operation then Some WARNING else None))
                  (operations m))"
    by (auto simp: fun_eq_iff entry_lines_eq)
  show ?thesis
    unfolding show_plan_def e by (simp add: Let_def)
qed

text \<open>
  Claim C9. \<^verbatim>\<open>describe_operation\<close> flags an operation as an error exactly when it
  is described backwards and has no reverse effect, and the action it then hands to the
  truncator is the text IRREVERSIBLE (with the arrow). The listing written under
  \<^verbatim>\<open>--plan\<close> is the title, then for every plan entry, in order, its heading and
  one line per operation: the indented text of \<^verbatim>\<open>describe_operation\<close>, in the
  warning style exactly when the entry is backwards and the operation has no reverse
  effect. So an irreversible operation of a backward entry appears as its description
  followed by the IRREVERSIBLE action, in the warning style; the listing goes on to the
  last entry whatever is flagged, and the command leaves with an exit status only for a
  non-empty plan under \<^verbatim>\<open>--check\<close>.
\<close>

theorem describe_operation_irreversible:
  "snd (describe_operation R operation backwards) = (backwards \<and> no_reverse_effect operation)
   \<and> (backwards \<and> no_reverse_effect operation \<longrightarrow>
        fst (describe_operation R operation backwards) =
          op_describe operation @ truncator_chars R (Some '' -> IRREVERSIBLE''))
   \<and> fst (show_plan R plan chk) =
        [(''Planned operations:'', Some MIGRATE_LABEL)]
        @ (if plan = [] then [(''  No planned migration operations.'', None)] else [])
        @ concat (map (\<lambda>(m, b).
             (migration_str R m, Some MIGRATE_HEADING)
               # map (\<lambda>operation. (''    '' @ fst (describe_operation R operation b),
                         if b \<and> no_reverse_effect operation then Some WARNING else None))
                     (operations m)) plan)
   \<and> snd (show_plan R plan chk) = (plan \<noteq> [] \<and> chk)
   \<and> length (fst (show_plan R plan chk)) =
        1 + (if plan = [] then 1 else 0) + (\<Sum>(m, b)\<leftarrow>plan. 1 + length (operations m))
   \<and> (\<forall>(m, b) \<in> set plan.
        (migration_str R m, Some MIGRATE_HEADING) \<in> set (fst (show_plan R plan chk))
        \<and> (\<forall>operation \<in> set (operations m).
              (''    '' @ fst (describe_operation R operation b),
               if b \<and> no_reverse_effect operation then Some WARNING else None)
                 \<in> set (fst (show_plan R plan chk))
              \<and> (b \<and> no_reverse_effect operation \<longrightarrow>
                   (''    '' @ op_describe operation
                      @ truncator_chars R (Some '' -> IRREVERSIBLE''), Some WARNING)
                     \<in> set (fst (show_plan R plan chk)))))"
proof -
  have entries: "\<forall>(m, b) \<in> set plan.
        (migration_str R m, Some MIGRATE_HEADING) \<in> set (fst (show_plan R plan chk))
        \<and> (\<forall>operation \<in> set (operations m).
              (''    '' @ fst (describe_operation R operation b),
               if b \<and> no_reverse_effect operation then Some WARNING else None)
                 \<in> set (fst (show_plan R plan chk))
              \<and> (b \<and> no_reverse_effect operation \<longrightarrow>
                   (''    '' @ op_describe operation
                      @ truncator_chars R (Some '' -> IRREVERSIBLE''), Some WARNING)
                     \<in> set (fst (show_plan R plan chk))))"
  proof (clarify, intro conjI ballI impI)
    fix m b assume mb: "(m, b) \<in> set plan"
    have "(migration_str R m, Some MIGRATE_HEADING) \<in> set (entry_lines R (m, b))"
      by (simp add: entry_lines_def)
    with show_plan_entry [OF mb]
    show "(migration_str R m, Some MIGRATE_HEADING) \<in> set (fst (show_plan R plan chk))"
      by blast
  next
    fix m b operation
    assume mb: "(m, b) \<in> set plan" and o: "operation \<in> set (operations m)"
    then have "operation_line R b operation \<in> set (entry_lines R (m, b))"
      by (simp add: entry_lines_def)
    with show_plan_entry [OF mb]
    have "operation_line R b operation \<in> set (fst (show_plan R plan chk))"
      by blast
    then show "(''    '' @ fst (describe_operation R operation b),
               if b \<and> no_reverse_effect operation then Some WARNING else None)
                 \<in> set (fst (show_plan R plan chk))"
      by (simp only: operation_line_eq)
  next
    fix m b operation
    assume mb: "(m, b) \<in> set plan" and o: "operation \<in> set (operations m)"
      and irr: "b \<and> no_reverse_effect operation"
    from mb o have "operation_line R b operation \<in> set (entry_lines R (m, b))"
      by (simp add: entry_lines_def)
    with show_plan_entry [OF mb]
    have "operation_line R b operation \<in> set (fst (show_plan R plan chk))"
      by blast
    with irr show "(''    '' @ op_describe operation
                      @ truncator_chars R (Some '' -> IRREVERSIBLE''), Some WARNING)
                     \<in> set (fst (show_plan R plan chk))"
      by (simp add: operation_line_irreversible)
  qed
  have exit_dry: "snd (show_plan R plan chk) = (plan \<noteq> [] \<and> chk)"
    by (simp add: show_plan_def)
  show ?thesis
    using describe_operation_flag [of R operation backwards]
      describe_operation_irreversible_text [of backwards operation R]
      show_plan_listing [of R plan chk] exit_dry
      length_show_plan [of R plan chk] entries
    by blast
qed

theorem describe_operation_irreversible_witness:
  "describe_operation plain_rendering (RunPython ''Raw Python operation'' (Some \<lparr>doc = None\<rparr>) None) True
     = (''Raw Python operation -> IRREVERSIBLE'', True)
   \<and> describe_operation plain_rendering (RunSQL ''Raw SQL operation'' (Some (SqlText ''DROP'')) None) True
     = (''Raw SQL operation -> IRREVERSIBLE'', True)
   \<and> describe_operation plain_rendering
        (RunSQL ''Raw SQL operation'' (Some (SqlText ''DROP'')) (Some (SqlText ''CREATE''))) True
     = (''Raw SQL operation -> CREATE'', False)
   \<and> show_plan plain_rendering irreversible_plan False =
       ([(''Planned operations:'', Some MIGRATE_LABEL),
         (''books.0002_title'', Some MIGRATE_HEADING),
         (''    Raw Python operation -> IRREVERSIBLE'', Some WARNING),
         (''    Undo Create model Book'', None)], False)"
proof -
  let ?p = "RunPython ''Raw Python operation'' (Some \<lparr>doc = None\<rparr>) None"
  let ?s = "RunSQL ''Raw SQL operation'' (Some (SqlText ''DROP'')) None"
  let ?r = "RunSQL ''Raw SQL operation'' (Some (SqlText ''DROP'')) (Some (SqlText ''CREATE''))"
  let ?o = "OtherOperation ''Create model Book''"
  have t: "truncator_chars plain_rendering (Some '' -> IRREVERSIBLE'') = '' -> IRREVERSIBLE''"
    by (simp add: plain_rendering_def)
  have a: "describe_operation plain_rendering ?p True = (''Raw Python operation -> IRREVERSIBLE'', True)"
    using describe_operation_irreversible [of plain_rendering ?p True "[]" False] t
    by (simp add: prod_eq_iff)
  have b: "describe_operation plain_rendering ?s True = (''Raw SQL operation -> IRREVERSIBLE'', True)"
    using describe_operation_irreversible [of plain_rendering ?s True "[]" False] t
    by (simp add: prod_eq_iff)
  have c: "describe_operation plain_rendering ?r True = (''Raw SQL operation -> CREATE'', False)"
    by (simp add: describe_operation_def plain_rendering_def)
  have o: "describe_operation plain_rendering ?o True = (''Undo Create model Book'', False)"
    by (simp add: describe_operation_def plain_rendering_def)
  have ms: "migration_str plain_rendering (fst (hd irreversible_plan)) = ''books.0002_title''"
    by (simp add: irreversible_plan_def plain_rendering_def unit_of_def)
  have pl: "irreversible_plan =
      [((unit_of ''books'' ''0002_title'')\<lparr>operations := [?p, ?o]\<rparr>, True)]"
    by (simp add: irreversible_plan_def)
  from describe_operation_irreversible [of plain_rendering ?p True irreversible_plan False]
  have l: "fst (show_plan plain_rendering irreversible_plan False) =
       [(''Planned operations:'', Some MIGRATE_LABEL),
        (''books.0002_title'', Some MIGRATE_HEADING),
        (''    Raw Python operation -> IRREVERSIBLE'', Some WARNING),
        (''    Undo Create model Book'', None)]"
    and x: "snd (show_plan plain_rendering irreversible_plan False) = False"
    using ms by (simp_all add: pl a o)
  from l x have d: "show_plan plain_rendering irreversible_plan False =
       ([(''Planned operations:'', Some MIGRATE_LABEL),
         (''books.0002_title'', Some MIGRATE_HEADING),
         (''    Raw Python operation -> IRREVERSIBLE'', Some WARNING),
         (''    Undo Create model Book'', None)], False)"
    by (simp add: prod_eq_iff)
  from a b c d show ?thesis by blast
qed

subsection \<open>Conflict detection\<close>

lemma names_of_Nil [simp]: "names_of [] a = []"
  by (simp add: names_of_def)

lemma names_of_Cons:
  "names_of ((b, n) # xs) a = (if b = a then n # names_of xs a else names_of xs a)"
  by (simp add: names_of_def)

lemma set_fold_insert: "set (fold List.insert xs ys) = set xs \<union> set ys"
  by (induction xs arbitrary: ys) auto

lemma distinct_fold_insert: "distinct ys \<Longrightarrow> distinct (fold List.insert xs ys)"
  by (induction xs arbitrary: ys) auto

lemma fold_conflict_step:
  "fold conflict_step xs (seen, conf) =
     ((\<lambda>a. if names_of xs a = [] then seen a
            else Some (fold List.insert (names_of xs a) (seen_names seen a))),
      conf \<union> {a. (seen a \<noteq> None \<and> names_of xs a \<noteq> []) \<or> 1 < length (names_of xs a)})"
proof (induction xs arbitrary: seen conf)
  case Nil
  show ?case by simp
next
  case (Cons x xs)
  obtain b n where x: "x = (b, n)" by (cases x)
  define seen' where "seen' = seen(b \<mapsto> List.insert n (seen_names seen b))"
  define conf' where "conf' = (if seen b \<noteq> None then insert b conf else conf)"
  have step: "conflict_step x (seen, conf) = (seen', conf')"
    by (simp add: conflict_step_def x seen'_def conf'_def)
  have names': "\<And>a. seen_names seen' a =
      (if a = b then List.insert n (seen_names seen b) else seen_names seen a)"
    by (simp add: seen'_def seen_names_def)
  have seen'_apply: "\<And>a. seen' a =
      (if a = b then Some (List.insert n (seen_names seen b)) else seen a)"
    by (simp add: seen'_def)
  have first: "(\<lambda>a. if names_of xs a = [] then seen' a
            else Some (fold List.insert (names_of xs a) (seen_names seen' a)))
      = (\<lambda>a. if names_of (x # xs) a = [] then seen a
            else Some (fold List.insert (names_of (x # xs) a) (seen_names seen a)))"
  proof
    fix a
    show "(if names_of xs a = [] then seen' a
            else Some (fold List.insert (names_of xs a) (seen_names seen' a)))
      = (if names_of (x # xs) a = [] then seen a
            else Some (fold List.insert (names_of (x # xs) a) (seen_names seen a)))"
      by (cases "a = b") (simp_all add: x names_of_Cons names' seen'_apply)
  qed
  have second: "conf' \<union> {a. (seen' a \<noteq> None \<and> names_of xs a \<noteq> []) \<or> 1 < length (names_of xs a)}
      = conf \<union> {a. (seen a \<noteq> None \<and> names_of (x # xs) a \<noteq> [])
                    \<or> 1 < length (names_of (x # xs) a)}"
    by (auto simp: x names_of_Cons seen'_def conf'_def split: if_splits)
  have "fold conflict_step (x # xs) (seen, conf) = fold conflict_step xs (seen', conf')"
    by (simp add: step)
  also have "\<dots> = ((\<lambda>a. if names_of xs a = [] then seen' a
            else Some (fold List.insert (names_of xs a) (seen_names seen' a))),
      conf' \<union> {a. (seen' a \<noteq> None \<and> names_of xs a \<noteq> []) \<or> 1 < length (names_of xs a)})"
    by (rule Cons.IH)
  finally show ?case by (simp only: first second)
qed

lemma conflicts_of_eq:
  "conflicts_of xs a =
     (if 1 < length (names_of xs a) then Some (sort (fold List.insert (names_of xs a) [])) else None)"
  by (auto simp: conflicts_of_def fold_conflict_step seen_names_def)

lemma names_of_set: "set (names_of xs a) = {n. (a, n) \<in> set xs}"
  by (force simp: names_of_def)

lemma names_of_distinct: "distinct xs \<Longrightarrow> distinct (names_of xs a)"
  by (auto simp: names_of_def distinct_map inj_on_def prod_eq_iff)

lemma names_of_length: "distinct xs \<Longrightarrow> length (names_of xs a) = card {n. (a, n) \<in> set xs}"
proof -
  assume "distinct xs"
  then have "length (names_of xs a) = card (set (names_of xs a))"
    by (simp add: names_of_distinct distinct_card)
  then show ?thesis by (simp only: names_of_set)
qed

lemma conflicts_of_spec:
  assumes "distinct xs"
  shows "dom (conflicts_of xs) = {a. 1 < card {n. (a, n) \<in> set xs}}"
    and "conflicts_of xs a = Some ns \<Longrightarrow>
           sorted ns \<and> distinct ns \<and> set ns = {n. (a, n) \<in> set xs}"
proof -
  show "dom (conflicts_of xs) = {a. 1 < card {n. (a, n) \<in> set xs}}"
    by (auto simp: dom_def conflicts_of_eq names_of_length [OF assms])
  assume "conflicts_of xs a = Some ns"
  then have ns: "ns = sort (fold List.insert (names_of xs a) [])"
    by (simp add: conflicts_of_eq split: if_splits)
  show "sorted ns \<and> distinct ns \<and> set ns = {n. (a, n) \<in> set xs}"
    by (simp add: ns set_fold_insert distinct_fold_insert names_of_set)
qed

lemma distinct_leaf_nodes: "distinct (map fst g) \<Longrightarrow> distinct (leaf_nodes g app)"
  by (simp add: leaf_nodes_def distinct_map_filter)


lemma fork_leaves: "leaf_nodes fork_graph None =
   [(''auth'', ''0001_initial''), (''books'', ''0002_author''), (''books'', ''0002_title'')]"
  by (simp add: leaf_nodes_def fork_graph_def of_app_def)


text \<open>
  Claim C5. With the keys of the graph distinct (it is a dictionary),
  \<^verbatim>\<open>detect_conflicts\<close> returns a dictionary whose keys are exactly the app labels
  with more than one leaf among \<^verbatim>\<open>leaf_nodes()\<close>, and the value of each is the
  sorted list, without repetition, of all the leaf names of that app.
\<close>

theorem detect_conflicts_spec:
  assumes "distinct (graph_keys (graph L))"
  shows "dom (detect_conflicts L) =
           {a. 1 < card {n. (a, n) \<in> set (leaf_nodes (graph L) None)}}
       \<and> (\<forall>a ns. detect_conflicts L a = Some ns \<longrightarrow>
             sorted ns \<and> distinct ns \<and> set ns = {n. (a, n) \<in> set (leaf_nodes (graph L) None)})"
proof -
  have d: "distinct (leaf_nodes (graph L) None)"
    using assms by (simp add: distinct_leaf_nodes graph_keys_def)
  show ?thesis
    unfolding detect_conflicts_def
    using conflicts_of_spec [OF d] by blast
qed

theorem detect_conflicts_spec_witness:
  "distinct (graph_keys (graph fork_loader))
   \<and> detect_conflicts fork_loader ''books'' = Some [''0002_author'', ''0002_title'']
   \<and> detect_conflicts fork_loader ''auth'' = None"
proof -
  have d: "distinct (graph_keys (graph fork_loader))"
    by (simp add: fork_loader_def fork_graph_def graph_keys_def)
  have g: "graph fork_loader = fork_graph"
    by (simp add: fork_loader_def)
  have c: "{n. (''auth'', n) \<in> set (leaf_nodes (graph fork_loader) None)} = {''0001_initial''}"
    by (auto simp: g fork_leaves)
  from detect_conflicts_spec [OF d]
  have "(''auth'' \<in> dom (detect_conflicts fork_loader)) =
          (1 < card {n. (''auth'', n) \<in> set (leaf_nodes (graph fork_loader) None)})"
    by blast
  then have "''auth'' \<notin> dom (detect_conflicts fork_loader)"
    by (simp only: c) simp
  then have a: "detect_conflicts fork_loader ''auth'' = None"
    by blast
  have b: "detect_conflicts fork_loader ''books'' = Some [''0002_author'', ''0002_title'']"
    by (simp add: detect_conflicts_def g fork_leaves conflicts_of_def conflict_step_def
          seen_names_def)
  from d a b show ?thesis by blast
qed

subsection \<open>History check\<close>

lemma recorder_applied_migrations_total:
  "recorder_applied_migrations c = Inr (if has_table c then rows_dict (migration_rows c) else [])"
  by (simp add: recorder_applied_migrations_def migration_qs_def)

lemma replaces_all_applied_iff:
  "replaces_all_applied L applied p =
     (\<exists>r. map_of (replacements L) p = Some r
          \<and> (\<forall>t \<in> set (replaces r). t \<in> set (dict_keys applied)))"
  by (auto simp: replaces_all_applied_def list_all_iff split: option.splits)

lemma check_parents_Some:
  "check_parents L db applied m ps = Some e \<Longrightarrow>
     \<exists>p \<in> set ps. p \<notin> set (dict_keys applied) \<and> \<not> replaces_all_applied L applied p
        \<and> e = InconsistentMigrationHistory (history_message m p db)"
  by (induction ps) (auto split: if_splits)

lemma check_parents_None:
  "check_parents L db applied m ps = None \<Longrightarrow> p \<in> set ps \<Longrightarrow>
     p \<in> set (dict_keys applied) \<or> replaces_all_applied L applied p"
  by (induction ps) (auto split: if_splits)

lemma check_applied_Some:
  "check_applied L db applied ms = Some e \<Longrightarrow>
     \<exists>m \<in> set ms. in_graph m (graph L) \<and>
       (\<exists>p \<in> set (parents_of (graph L) m).
          p \<notin> set (dict_keys applied) \<and> \<not> replaces_all_applied L applied p
          \<and> e = InconsistentMigrationHistory (history_message m p db))"
proof (induction ms)
  case Nil
  then show ?case by simp
next
  case (Cons m ms)
  show ?case
  proof (cases "in_graph m (graph L)")
    case False
    with Cons show ?thesis by auto
  next
    case True
    show ?thesis
    proof (cases "check_parents L db applied m (parents_of (graph L) m)")
      case None
      with True Cons show ?thesis by auto
    next
      case (Some e')
      with True Cons.prems have "e' = e" by simp
      with Some True check_parents_Some [of L db applied m "parents_of (graph L) m" e]
      show ?thesis by auto
    qed
  qed
qed

lemma check_applied_None:
  "check_applied L db applied ms = None \<Longrightarrow> m \<in> set ms \<Longrightarrow> in_graph m (graph L) \<Longrightarrow>
     p \<in> set (parents_of (graph L) m) \<Longrightarrow>
     p \<in> set (dict_keys applied) \<or> replaces_all_applied L applied p"
proof (induction ms)
  case Nil
  then show ?case by simp
next
  case (Cons x xs)
  show ?case
  proof (cases "in_graph x (graph L)")
    case False
    with Cons show ?thesis by auto
  next
    case True
    with Cons.prems(1) have pn: "check_parents L db applied x (parents_of (graph L) x) = None"
      and rest: "check_applied L db applied xs = None"
      by (auto split: option.splits)
    show ?thesis
    proof (cases "m = x")
      case True
      with pn Cons.prems(4) check_parents_None show ?thesis by blast
    next
      case False
      with Cons.prems have "m \<in> set xs" by simp
      with Cons.IH rest Cons.prems show ?thesis by blast
    qed
  qed
qed

lemma check_consistent_history_applied:
  assumes "recorder_applied_migrations c = Inr applied"
  shows "(check_consistent_history L c \<noteq> None) =
           (\<exists>m \<in> set (map fst applied). m \<in> set (map fst (graph L)) \<and>
              (\<exists>p \<in> set (parents_of (graph L) m).
                 p \<notin> set (map fst applied)
                 \<and> \<not> (\<exists>r. map_of (replacements L) p = Some r
                          \<and> (\<forall>t \<in> set (replaces r). t \<in> set (map fst applied)))))
       \<and> (\<forall>e. check_consistent_history L c = Some e \<longrightarrow>
            (\<exists>m \<in> set (map fst applied). m \<in> set (map fst (graph L)) \<and>
              (\<exists>p \<in> set (parents_of (graph L) m).
                 p \<notin> set (map fst applied)
                 \<and> \<not> (\<exists>r. map_of (replacements L) p = Some r
                          \<and> (\<forall>t \<in> set (replaces r). t \<in> set (map fst applied)))
                 \<and> e = InconsistentMigrationHistory
                         (''Migration '' @ fst m @ ''.'' @ snd m
                            @ '' is applied before its dependency '' @ fst p @ ''.'' @ snd p
                            @ '' on database '' @ [CHR 0x27] @ db_alias c @ [CHR 0x27]
                            @ ''.''))))"
proof -
  let ?g = "graph L"
  let ?ks = "dict_keys applied"
  have cch: "check_consistent_history L c = check_applied L (db_alias c) applied ?ks"
    using assms by (simp add: check_consistent_history_def)
  have ks: "?ks = map fst applied" by (simp add: dict_keys_def)
  have ing: "\<And>m. in_graph m ?g = (m \<in> set (map fst ?g))"
    by (simp add: in_graph_def graph_keys_def)
  have msg: "\<And>m p. history_message m p (db_alias c) =
      ''Migration '' @ fst m @ ''.'' @ snd m
        @ '' is applied before its dependency '' @ fst p @ ''.'' @ snd p
        @ '' on database '' @ [CHR 0x27] @ db_alias c @ [CHR 0x27] @ ''.''"
    by (simp add: history_message_def quoted_def)
  have some: "\<forall>e. check_consistent_history L c = Some e \<longrightarrow>
            (\<exists>m \<in> set (map fst applied). m \<in> set (map fst (graph L)) \<and>
              (\<exists>p \<in> set (parents_of (graph L) m).
                 p \<notin> set (map fst applied)
                 \<and> \<not> (\<exists>r. map_of (replacements L) p = Some r
                          \<and> (\<forall>t \<in> set (replaces r). t \<in> set (map fst applied)))
                 \<and> e = InconsistentMigrationHistory
                         (''Migration '' @ fst m @ ''.'' @ snd m
                            @ '' is applied before its dependency '' @ fst p @ ''.'' @ snd p
                            @ '' on database '' @ [CHR 0x27] @ db_alias c @ [CHR 0x27]
                            @ ''.'')))"
  proof (intro allI impI)
    fix e assume "check_consistent_history L c = Some e"
    then have "check_applied L (db_alias c) applied ?ks = Some e" by (simp only: cch)
    from check_applied_Some [OF this]
    obtain m p where "m \<in> set ?ks" "in_graph m ?g" "p \<in> set (parents_of ?g m)"
      "p \<notin> set ?ks" "\<not> replaces_all_applied L applied p"
      "e = InconsistentMigrationHistory (history_message m p (db_alias c))"
      by blast
    then show "\<exists>m \<in> set (map fst applied). m \<in> set (map fst (graph L)) \<and>
              (\<exists>p \<in> set (parents_of (graph L) m).
                 p \<notin> set (map fst applied)
                 \<and> \<not> (\<exists>r. map_of (replacements L) p = Some r
                          \<and> (\<forall>t \<in> set (replaces r). t \<in> set (map fst applied)))
                 \<and> e = InconsistentMigrationHistory
                         (''Migration '' @ fst m @ ''.'' @ snd m
                            @ '' is applied before its dependency '' @ fst p @ ''.'' @ snd p
                            @ '' on database '' @ [CHR 0x27] @ db_alias c @ [CHR 0x27]
                            @ ''.''))"
      unfolding msg replaces_all_applied_iff ks ing by blast
  qed
  have iff: "(check_consistent_history L c \<noteq> None) =
           (\<exists>m \<in> set (map fst applied). m \<in> set (map fst (graph L)) \<and>
              (\<exists>p \<in> set (parents_of (graph L) m).
                 p \<notin> set (map fst applied)
                 \<and> \<not> (\<exists>r. map_of (replacements L) p = Some r
                          \<and> (\<forall>t \<in> set (replaces r). t \<in> set (map fst applied)))))"
  proof
    assume "check_consistent_history L c \<noteq> None"
    then obtain e where "check_consistent_history L c = Some e" by blast
    with some show "\<exists>m \<in> set (map fst applied). m \<in> set (map fst (graph L)) \<and>
              (\<exists>p \<in> set (parents_of (graph L) m).
                 p \<notin> set (map fst applied)
                 \<and> \<not> (\<exists>r. map_of (replacements L) p = Some r
                          \<and> (\<forall>t \<in> set (replaces r). t \<in> set (map fst applied))))"
      by blast
  next
    assume "\<exists>m \<in> set (map fst applied). m \<in> set (map fst (graph L)) \<and>
              (\<exists>p \<in> set (parents_of (graph L) m).
                 p \<notin> set (map fst applied)
                 \<and> \<not> (\<exists>r. map_of (replacements L) p = Some r
                          \<and> (\<forall>t \<in> set (replaces r). t \<in> set (map fst applied))))"
    then obtain m p where v: "m \<in> set ?ks" "in_graph m ?g" "p \<in> set (parents_of ?g m)"
      "p \<notin> set ?ks" "\<not> replaces_all_applied L applied p"
      unfolding replaces_all_applied_iff ks ing by blast
    show "check_consistent_history L c \<noteq> None"
    proof
      assume "check_consistent_history L c = None"
      then have "check_applied L (db_alias c) applied ?ks = None" by (simp only: cch)
      from check_applied_None [OF this v(1) v(2) v(3)] v(4) v(5) show False by blast
    qed
  qed
  from iff some show ?thesis by blast
qed

lemma keys_fold_update:
  "fst ` set (fold (\<lambda>r d. AList.update (row_app r, row_name r) (AppliedRow r) d) rows d0) =
     (\<lambda>r. (row_app r, row_name r)) ` set rows \<union> fst ` set d0"
proof (induction rows arbitrary: d0)
  case Nil
  show ?case by simp
next
  case (Cons r rows)
  have "fst ` set (AList.update (row_app r, row_name r) (AppliedRow r) d0) =
      insert (row_app r, row_name r) (fst ` set d0)"
    using dom_update [of "(row_app r, row_name r)" "AppliedRow r" d0] by simp
  with Cons.IH show ?case by auto
qed

lemma keys_rows_dict:
  "fst ` set (rows_dict rows) = (\<lambda>r. (row_app r, row_name r)) ` set rows"
  by (simp add: rows_dict_def keys_fold_update)

lemma recorded_keys_applied:
  assumes "recorder_applied_migrations c = Inr applied"
  shows "fst ` set applied = recorded_keys c"
proof (cases "has_table c")
  case True
  with assms have "applied = rows_dict (migration_rows c)"
    by (simp add: recorder_applied_migrations_total)
  with True show ?thesis
    by (simp only: keys_rows_dict recorded_keys_def if_True)
next
  case False
  with assms have "applied = []"
    by (simp add: recorder_applied_migrations_total)
  with False show ?thesis
    by (simp add: recorded_keys_def)
qed

text \<open>
  Claim C2. The applied keys are the (app, name) pairs of the rows the recorder reads.
  The history check raises exactly when some applied key that is a node of the graph has
  a parent that is not applied and is not a replacing unit all of whose
  \<^verbatim>\<open>replaces\<close> are applied; what it raises is then
  InconsistentMigrationHistory with the message that names such a unit and such a parent
  of it, and the database. An applied key that is not in the graph never counts.
\<close>

theorem check_consistent_history_spec:
  "(check_consistent_history L c \<noteq> None) =
           (\<exists>m \<in> recorded_keys c. \<exists>n. map_of (graph L) m = Some n \<and>
              (\<exists>p \<in> set (parents n).
                 p \<notin> recorded_keys c
                 \<and> \<not> (\<exists>r. map_of (replacements L) p = Some r
                          \<and> set (replaces r) \<subseteq> recorded_keys c)))
       \<and> (\<forall>e. check_consistent_history L c = Some e \<longrightarrow>
            (\<exists>m \<in> recorded_keys c. \<exists>n. map_of (graph L) m = Some n \<and>
              (\<exists>p \<in> set (parents n).
                 p \<notin> recorded_keys c
                 \<and> \<not> (\<exists>r. map_of (replacements L) p = Some r
                          \<and> set (replaces r) \<subseteq> recorded_keys c)
                 \<and> e = InconsistentMigrationHistory
                         (''Migration '' @ fst m @ ''.'' @ snd m
                            @ '' is applied before its dependency '' @ fst p @ ''.'' @ snd p
                            @ '' on database '' @ [CHR 0x27] @ db_alias c @ [CHR 0x27]
                            @ ''.''))))"
proof -
  obtain applied where a: "recorder_applied_migrations c = Inr applied"
    by (simp add: recorder_applied_migrations_total)
  have k: "set (map fst applied) = recorded_keys c"
    using recorded_keys_applied [OF a] by simp
  have node: "\<And>m P. (m \<in> set (map fst (graph L)) \<and> (\<exists>p \<in> set (parents_of (graph L) m). P p)) =
      (\<exists>n. map_of (graph L) m = Some n \<and> (\<exists>p \<in> set (parents n). P p))"
  proof -
    fix m P
    show "(m \<in> set (map fst (graph L)) \<and> (\<exists>p \<in> set (parents_of (graph L) m). P p)) =
      (\<exists>n. map_of (graph L) m = Some n \<and> (\<exists>p \<in> set (parents n). P p))"
    proof (cases "map_of (graph L) m")
      case None
      then have "m \<notin> set (map fst (graph L))"
        by (simp add: map_of_eq_None_iff)
      with None show ?thesis by simp
    next
      case (Some n)
      then have "m \<in> set (map fst (graph L))"
        using map_of_eq_None_iff [of "graph L" m] by simp
      with Some show ?thesis by (simp add: parents_of_def node_of_def)
    qed
  qed
  have sub: "\<And>r. (\<forall>t \<in> set (replaces r). t \<in> recorded_keys c) = (set (replaces r) \<subseteq> recorded_keys c)"
    by blast
  show ?thesis
    using check_consistent_history_applied [OF a, of L]
    unfolding k node sub .
qed

lemma rows_dict_single: "rows_dict [MigrationRow a n t] = [((a, n), AppliedRow (MigrationRow a n t))]"
  by (simp add: rows_dict_def)

lemma rows_dict_pair:
  "(a, n) \<noteq> (a', n') \<Longrightarrow>
   rows_dict [MigrationRow a n t, MigrationRow a' n' t'] =
     [((a, n), AppliedRow (MigrationRow a n t)), ((a', n'), AppliedRow (MigrationRow a' n' t'))]"
  by (auto simp: rows_dict_def)



theorem check_consistent_history_spec_witness:
  "check_consistent_history chain_loader
        (database_with [MigrationRow ''books'' ''0002_title'' 5]) =
     Some (InconsistentMigrationHistory
       (''Migration books.0002_title is applied before its dependency books.0001_initial''
          @ '' on database '' @ [CHR 0x27] @ ''default'' @ [CHR 0x27] @ ''.''))
   \<and> check_consistent_history chain_loader
        (database_with [MigrationRow ''books'' ''0001_initial'' 4,
                        MigrationRow ''books'' ''0002_title'' 5]) = None
   \<and> check_consistent_history chain_loader
        (database_with [MigrationRow ''auth'' ''0007_gone'' 5]) = None
   \<and> check_consistent_history squash_loader
        (database_with [MigrationRow ''books'' ''0001_initial'' 4,
                        MigrationRow ''books'' ''0002_title'' 5,
                        MigrationRow ''books'' ''0003_author'' 6]) = None
   \<and> check_consistent_history squash_loader
        (database_with [MigrationRow ''books'' ''0001_initial'' 4,
                        MigrationRow ''books'' ''0003_author'' 6]) \<noteq> None"
proof -
  let ?c1 = "database_with [MigrationRow ''books'' ''0002_title'' 5]"
  have rk: "recorded_keys ?c1 = {(''books'', ''0002_title'')}"
    by (simp add: recorded_keys_def database_with_def has_table_def)
  have g: "graph chain_loader = chain_graph" by (simp add: chain_loader_def)
  have al: "db_alias ?c1 = ''default''" by (simp add: database_with_def)
  have rep: "replacements chain_loader = []"
    by (simp add: chain_loader_def books_loader_def)
  have node: "map_of chain_graph (''books'', ''0002_title'') =
      Some \<lparr>payload = Resolved ((unit_of ''books'' ''0002_title'')
                      \<lparr>dependencies := [(''books'', ''0001_initial'')]\<rparr>),
          parents = [(''books'', ''0001_initial'')], children = []\<rparr>"
    by (simp add: chain_graph_def)
  have rhs: "\<exists>m \<in> recorded_keys ?c1. \<exists>n. map_of (graph chain_loader) m = Some n \<and>
              (\<exists>p \<in> set (parents n).
                 p \<notin> recorded_keys ?c1
                 \<and> \<not> (\<exists>r. map_of (replacements chain_loader) p = Some r
                          \<and> set (replaces r) \<subseteq> recorded_keys ?c1))"
    by (simp add: rk g node rep)
  with check_consistent_history_spec [of chain_loader ?c1]
  have "check_consistent_history chain_loader ?c1 \<noteq> None"
    by blast
  then obtain e where e: "check_consistent_history chain_loader ?c1 = Some e" by blast
  with check_consistent_history_spec [of chain_loader ?c1]
  have "\<exists>m \<in> recorded_keys ?c1. \<exists>n. map_of (graph chain_loader) m = Some n \<and>
              (\<exists>p \<in> set (parents n).
                 p \<notin> recorded_keys ?c1
                 \<and> \<not> (\<exists>r. map_of (replacements chain_loader) p = Some r
                          \<and> set (replaces r) \<subseteq> recorded_keys ?c1)
                 \<and> e = InconsistentMigrationHistory
                         (''Migration '' @ fst m @ ''.'' @ snd m
                            @ '' is applied before its dependency '' @ fst p @ ''.'' @ snd p
                            @ '' on database '' @ [CHR 0x27] @ db_alias ?c1 @ [CHR 0x27]
                            @ ''.''))"
    by blast
  then have "e = InconsistentMigrationHistory
       (''Migration books.0002_title is applied before its dependency books.0001_initial''
          @ '' on database '' @ [CHR 0x27] @ ''default'' @ [CHR 0x27] @ ''.'')"
    by (simp add: rk g node al)
  with e have a: "check_consistent_history chain_loader ?c1 =
     Some (InconsistentMigrationHistory
       (''Migration books.0002_title is applied before its dependency books.0001_initial''
          @ '' on database '' @ [CHR 0x27] @ ''default'' @ [CHR 0x27] @ ''.''))"
    by simp
  have b: "check_consistent_history chain_loader
        (database_with [MigrationRow ''books'' ''0001_initial'' 4,
                        MigrationRow ''books'' ''0002_title'' 5]) = None"
    by (simp add: check_consistent_history_def recorder_applied_migrations_total
          database_with_def has_table_def rows_dict_pair dict_keys_def g in_graph_def
          graph_keys_def parents_of_def node_of_def chain_graph_def)
  have c: "check_consistent_history chain_loader
        (database_with [MigrationRow ''auth'' ''0007_gone'' 5]) = None"
    by (simp add: check_consistent_history_def recorder_applied_migrations_total
          database_with_def has_table_def rows_dict_single dict_keys_def g in_graph_def
          graph_keys_def chain_graph_def)
  have d: "check_consistent_history squash_loader
        (database_with [MigrationRow ''books'' ''0001_initial'' 4,
                        MigrationRow ''books'' ''0002_title'' 5,
                        MigrationRow ''books'' ''0003_author'' 6]) = None"
    by (simp add: check_consistent_history_def recorder_applied_migrations_total
          database_with_def has_table_def rows_dict_def dict_keys_def in_graph_def
          graph_keys_def parents_of_def node_of_def squash_graph_def squash_loader_def
          books_loader_def replaces_all_applied_def squash_unit_def unit_of_def)
  have f: "check_consistent_history squash_loader
        (database_with [MigrationRow ''books'' ''0001_initial'' 4,
                        MigrationRow ''books'' ''0003_author'' 6]) \<noteq> None"
    by (simp add: check_consistent_history_def recorder_applied_migrations_total
          database_with_def has_table_def rows_dict_def dict_keys_def in_graph_def
          graph_keys_def parents_of_def node_of_def squash_graph_def squash_loader_def
          books_loader_def replaces_all_applied_def squash_unit_def unit_of_def)
  from a b c d f show ?thesis by blast
qed

subsection \<open>The targets of the migrate command\<close>





subsection \<open>Loading from disk\<close>











end
